theory Spec2Isabelle
  imports
    Complex_Main
    "HOL-Library.Sublist"
    "HOL-Library.Char_ord"
    "HOL-Library.List_Lexorder"
    "HOL-Library.Log_Nat"
    "HOL-Library.Multiset"
begin

section \<open>The customers module: data model\<close>

text \<open>
  A shallow embedding of \<^verbatim>\<open>models.py\<close> and \<^verbatim>\<open>views.py\<close>.

  \<^item> A Python \<^verbatim>\<open>str\<close> is a \<open>string\<close>; a character stands for the code point of the
    same number, so the model covers the code points below 256.
  \<^item> A \<^verbatim>\<open>Decimal\<close> is the rational number it denotes, so the model covers the finite
    decimals. Division rounds the quotient to the 28 significant digits of Python's
    default decimal context, ties to even, and raises when the divisor is zero; the
    exponent limits of the context are far from the values a column of ten digits and an
    integer column hold and are not part of the model.
  \<^item> A \<^verbatim>\<open>datetime\<close> is an instant, a number of microseconds; instants compare as the
    integers do.
  \<^item> The table of customers is the list of its rows in insertion order. The database's
    own checks (column widths, the digits of a decimal column) are not part of the model.
\<close>

type_synonym decimal = rat
type_synonym datetime = int

text \<open>\<^verbatim>\<open>class Customer(models.Model)\<close>, with the primary key Django adds.\<close>

record customer =
  customer_id :: nat
  name :: string
  email :: string
  phone :: string
  address :: string
  tax_id :: string
  total_spent :: decimal
  visit_count :: int
  notes_text :: string
  is_active :: bool
  created_at :: datetime
  updated_at :: datetime
  last_purchase_at :: "datetime option"

text \<open>
  Modelled from the spec: the record of the external sales collaborator, which the spec
  gives as customer_name (string), status, total (decimal), created_at. The model class
  \<^verbatim>\<open>sales.models.Sale\<close> belongs to another plugin.
\<close>

record sale =
  sale_customer_name :: string
  sale_status :: string
  sale_total :: decimal
  sale_created_at :: datetime

text \<open>Modelled from the spec: \<^verbatim>\<open>Sale.STATUS_COMPLETED\<close>, the status "completed".\<close>

definition STATUS_COMPLETED :: string where
  "STATUS_COMPLETED = ''completed''"

text \<open>
  The exceptions the module meets, all of them subclasses of \<^verbatim>\<open>Exception\<close>:
  \<^verbatim>\<open>Http404\<close>, which \<^verbatim>\<open>get_object_or_404\<close> raises, \<^verbatim>\<open>ImportError\<close>, which the import of
  the sales plugin raises when the plugin is not installed, and the decimal module's
  division by zero (\<^verbatim>\<open>DivisionByZero\<close>, and \<^verbatim>\<open>InvalidOperation\<close> for zero by zero).
  ImportError carries the name of the module; \<open>str_exn\<close> is \<^verbatim>\<open>str(e)\<close>.
\<close>

datatype exn = Http404 string | ImportError string | DivisionByZero | InvalidOperation

fun str_exn :: "exn \<Rightarrow> string" where
  "str_exn (Http404 m) = m"
| "str_exn (ImportError m) = ''No module named '' @ [CHR 0x27] @ m @ [CHR 0x27]"
| "str_exn DivisionByZero = ''[<class 'decimal.DivisionByZero'>]''"
| "str_exn InvalidOperation = ''[<class 'decimal.DivisionUndefined'>]''"

text \<open>
  The store: the rows of the customer table and the next value of the key sequence.
  The sales dataset is \<open>None\<close> when \<^verbatim>\<open>from sales.models import Sale\<close> raises ImportError.
\<close>

record store =
  rows :: "customer list"
  next_id :: nat

type_synonym sales = "sale list option"

section \<open>The ORM operations the module calls\<close>

text \<open>\<^verbatim>\<open>Customer.objects.get(id=...)\<close>: the row with that key, if there is one.\<close>

definition get_customer :: "store \<Rightarrow> nat \<Rightarrow> customer option" where
  "get_customer st i = find (\<lambda>c. customer_id c = i) (rows st)"

text \<open>\<^verbatim>\<open>get_object_or_404(Customer, id=customer_id)\<close>.\<close>

definition get_object_or_404 :: "store \<Rightarrow> nat \<Rightarrow> exn + customer" where
  "get_object_or_404 st i =
     (case get_customer st i of
        None \<Rightarrow> Inl (Http404 ''No Customer matches the given query.'')
      | Some c \<Rightarrow> Inr c)"

text \<open>
  \<^verbatim>\<open>instance.save()\<close> on an instance that has a key. When a row has the key, it is an
  update: \<^verbatim>\<open>auto_now\<close> sets \<open>updated_at\<close> to the clock, then every field of the instance is
  written to that row. When no row has the key, it is an insert: \<^verbatim>\<open>auto_now_add\<close> sets
  \<open>created_at\<close> to the clock as well, the instance becomes a new row under its key, and
  the key sequence moves past that key.
\<close>

definition save :: "datetime \<Rightarrow> store \<Rightarrow> customer \<Rightarrow> store \<times> customer" where
  "save now st c =
     (case get_customer st (customer_id c) of
        Some _ \<Rightarrow>
          (let c' = c\<lparr>updated_at := now\<rparr>
           in (st\<lparr>rows := map (\<lambda>r. if customer_id r = customer_id c' then c' else r) (rows st)\<rparr>,
               c'))
      | None \<Rightarrow>
          (let c' = c\<lparr>created_at := now, updated_at := now\<rparr>
           in (st\<lparr>rows := rows st @ [c'],
                  next_id := max (next_id st) (Suc (customer_id c'))\<rparr>,
               c')))"

text \<open>
  \<^verbatim>\<open>Customer.objects.create(name=..., email=..., phone=..., address=..., tax_id=..., notes=...)\<close>:
  the other fields take the defaults of the model, the key comes from the sequence,
  \<^verbatim>\<open>auto_now_add\<close> and \<^verbatim>\<open>auto_now\<close> read the clock.
\<close>

definition create :: "datetime \<Rightarrow> store \<Rightarrow> string \<Rightarrow> string \<Rightarrow> string \<Rightarrow> string \<Rightarrow> string \<Rightarrow> string
    \<Rightarrow> store \<times> customer" where
  "create now st n e p a t nt =
     (let c = \<lparr>customer_id = next_id st, name = n, email = e, phone = p, address = a,
                tax_id = t, total_spent = 0, visit_count = 0, notes_text = nt, is_active = True,
                created_at = now, updated_at = now, last_purchase_at = None\<rparr>
      in (st\<lparr>rows := rows st @ [c], next_id := Suc (next_id st)\<rparr>, c))"

section \<open>models.py: the methods of Customer\<close>

text \<open>\<^verbatim>\<open>from sales.models import Sale\<close>, then \<^verbatim>\<open>Sale.objects\<close>.\<close>

definition import_Sale :: "sales \<Rightarrow> exn + sale list" where
  "import_Sale sl =
     (case sl of
        None \<Rightarrow> Inl (ImportError ''sales'')
      | Some ss \<Rightarrow> Inr ss)"

text \<open>
  The queryset \<^verbatim>\<open>Sale.objects.filter(customer_name=self.name, status=Sale.STATUS_COMPLETED)\<close>.
\<close>

definition customer_sales :: "sale list \<Rightarrow> customer \<Rightarrow> sale list" where
  "customer_sales ss self =
     filter (\<lambda>s. sale_customer_name s = name self \<and> sale_status s = STATUS_COMPLETED) ss"

text \<open>\<^verbatim>\<open>queryset.order_by('-created_at')\<close> on sales; rows with equal keys keep their order.\<close>

definition sales_newest_first :: "sale list \<Rightarrow> sale list" where
  "sales_newest_first ss = sort_key (\<lambda>s. - sale_created_at s) ss"

text \<open>\<^verbatim>\<open>queryset.first()\<close>.\<close>

definition first :: "'a list \<Rightarrow> 'a option" where
  "first xs = (case xs of [] \<Rightarrow> None | x # _ \<Rightarrow> Some x)"

text \<open>
  \<^verbatim>\<open>queryset.aggregate(total=Sum('total'))['total']\<close>: SQL's SUM is NULL, that is
  \<^verbatim>\<open>None\<close>, over no rows.
\<close>

definition aggregate_sum_total :: "sale list \<Rightarrow> decimal option" where
  "aggregate_sum_total ss = (if ss = [] then None else Some (sum_list (map sale_total ss)))"

text \<open>Python's \<^verbatim>\<open>x or Decimal('0.00')\<close>: the right operand when \<open>x\<close> is None or zero.\<close>

definition or_zero :: "decimal option \<Rightarrow> decimal" where
  "or_zero x = (case x of None \<Rightarrow> 0 | Some d \<Rightarrow> (if d = 0 then 0 else d))"

text \<open>
  \<^verbatim>\<open>Customer.update_stats\<close>: the updated store and the updated instance, or the exception
  that leaves the method. ImportError is the one exception the method catches.
\<close>

definition update_stats :: "sales \<Rightarrow> datetime \<Rightarrow> store \<Rightarrow> customer \<Rightarrow> exn + store \<times> customer" where
  "update_stats sl now st self =
     (case import_Sale sl of
        Inl (ImportError _) \<Rightarrow> Inr (st, self)
      | Inl e \<Rightarrow> Inl e
      | Inr ss \<Rightarrow>
          (let sales = customer_sales ss self;
               self1 = self\<lparr>visit_count := int (length sales)\<rparr>;
               self2 = self1\<lparr>total_spent := or_zero (aggregate_sum_total sales)\<rparr>;
               last_sale = first (sales_newest_first sales);
               self3 = (case last_sale of
                          None \<Rightarrow> self2
                        | Some s \<Rightarrow> self2\<lparr>last_purchase_at := Some (sale_created_at s)\<rparr>)
           in Inr (save now st self3)))"

text \<open>\<^verbatim>\<open>Customer.get_recent_purchases\<close>, for a limit that is not negative.\<close>

definition get_recent_purchases :: "sales \<Rightarrow> customer \<Rightarrow> nat \<Rightarrow> exn + sale list" where
  "get_recent_purchases sl self limit =
     (case import_Sale sl of
        Inl (ImportError _) \<Rightarrow> Inr []
      | Inl e \<Rightarrow> Inl e
      | Inr ss \<Rightarrow> Inr (take limit (sales_newest_first (customer_sales ss self))))"

text \<open>
  The arithmetic of Python's default decimal context: 28 significant digits, rounding
  half to even. \<open>adjusted x\<close> is the exponent of the leading digit of a number that is not
  zero, \<^verbatim>\<open>Decimal.adjusted()\<close>; \<open>context_round\<close> keeps \<open>prec\<close> digits from the leading one.
\<close>

definition prec :: nat where
  "prec = 28"

definition adjusted :: "decimal \<Rightarrow> int" where
  "adjusted x =
     (case quotient_of x of
        (a, b) \<Rightarrow>
          (let k = int (floorlog 10 (nat \<bar>a\<bar>)) - int (floorlog 10 (nat b))
           in if 10 powi k \<le> \<bar>x\<bar> then k else k - 1))"

definition round_half_even :: "rat \<Rightarrow> int" where
  "round_half_even x =
     (let f = \<lfloor>x\<rfloor>; r = x - of_int f
      in if r < 1 / 2 then f
         else if 1 / 2 < r then f + 1
         else if even f then f else f + 1)"

definition context_round :: "decimal \<Rightarrow> decimal" where
  "context_round x =
     (if x = 0 then 0
      else (let e = adjusted x - (int prec - 1)
            in of_int (round_half_even (x / 10 powi e)) * 10 powi e))"

text \<open>
  Division of a Decimal by an int: it raises when the divisor is zero, and gives the
  quotient rounded in the context otherwise.
\<close>

definition decimal_div :: "decimal \<Rightarrow> int \<Rightarrow> exn + decimal" where
  "decimal_div a b =
     (if b = 0 then (if a = 0 then Inl InvalidOperation else Inl DivisionByZero)
      else Inr (context_round (a / of_int b)))"

text \<open>The property \<^verbatim>\<open>Customer.average_purchase\<close>.\<close>

definition average_purchase :: "customer \<Rightarrow> exn + decimal" where
  "average_purchase self =
     (if visit_count self > 0 then decimal_div (total_spent self) (visit_count self)
      else Inr 0)"

section \<open>views.py: requests, responses and helpers\<close>

text \<open>
  A request: the method, the query parameters, the form fields and the headers.
  \<open>qget\<close> is \<^verbatim>\<open>QueryDict.get(key, default)\<close>.
\<close>

record request =
  req_method :: string
  GET :: "string \<rightharpoonup> string"
  POST :: "string \<rightharpoonup> string"
  headers :: "string \<rightharpoonup> string"

definition qget :: "(string \<rightharpoonup> string) \<Rightarrow> string \<Rightarrow> string \<Rightarrow> string" where
  "qget d k dflt = (case d k of None \<Rightarrow> dflt | Some v \<Rightarrow> v)"

text \<open>
  The values a response carries. \<open>PFloat d\<close> is \<^verbatim>\<open>float(d)\<close> and \<open>PStrftime f t\<close> is
  \<^verbatim>\<open>t.strftime(f)\<close>: both conversions are kept as they are applied and not computed.
  \<open>PFString\<close> is an f-string of several parts.
\<close>

datatype pyval =
    PNone
  | PBool bool
  | PInt int
  | PStr string
  | PDecimal decimal
  | PFloat decimal
  | PStrftime string datetime
  | PFString "pyval list"
  | PCustomer "customer option"
  | PSales "sale list"
  | PList "pyval list"
  | PDict "(string \<times> pyval) list"

text \<open>
  The responses of the handlers: \<^verbatim>\<open>JsonResponse(data)\<close>, \<^verbatim>\<open>render(request, template, context)\<close>,
  the \<^verbatim>\<open>HttpResponseNotAllowed\<close> of \<^verbatim>\<open>require_http_methods\<close>, and the CSV download with
  its content type, its Content-Disposition and the rows handed to \<^verbatim>\<open>csv.writer\<close>.
\<close>

datatype response =
    JsonResponse pyval
  | Render string "(string \<times> pyval) list"
  | HttpResponseNotAllowed "string list"
  | HttpResponse string pyval "pyval list list"

text \<open>
  The status the client sees. An \<^verbatim>\<open>Http404\<close> that leaves a handler becomes the 404
  response; any other exception that leaves a handler is a server error.
\<close>

fun status_code :: "exn + response \<Rightarrow> nat" where
  "status_code (Inl (Http404 _)) = 404"
| "status_code (Inl _) = 500"
| "status_code (Inr (HttpResponseNotAllowed _)) = 405"
| "status_code (Inr _) = 200"

text \<open>\<^verbatim>\<open>gettext\<close>: the repository ships no catalogue, so a message is its own translation.\<close>

definition gettext :: "string \<Rightarrow> string" where
  "gettext msg = msg"

text \<open>\<^verbatim>\<open>str.isspace\<close> on one character and \<^verbatim>\<open>str.strip()\<close>.\<close>

definition isspace :: "char \<Rightarrow> bool" where
  "isspace c =
     (let n = (of_char c :: nat)
      in (9 \<le> n \<and> n \<le> 13) \<or> (28 \<le> n \<and> n \<le> 32) \<or> n = 133 \<or> n = 160)"

definition strip :: "string \<Rightarrow> string" where
  "strip s = rev (dropWhile isspace (rev (dropWhile isspace s)))"

text \<open>
  The lookup \<^verbatim>\<open>field__icontains=text\<close>: the field contains the text as a substring, letters
  compared without regard to case. The folding is that of the ASCII letters.
\<close>

definition lower_char :: "char \<Rightarrow> char" where
  "lower_char c =
     (if CHR ''A'' \<le> c \<and> c \<le> CHR ''Z'' then char_of (of_char c + (32 :: nat)) else c)"

definition icontains :: "string \<Rightarrow> string \<Rightarrow> bool" where
  "icontains field text = sublist (map lower_char text) (map lower_char field)"

text \<open>
  The decorator \<^verbatim>\<open>@require_http_methods([...])\<close>: the handler runs only for a listed
  method.
\<close>

definition require_http_methods ::
    "string list \<Rightarrow> request \<Rightarrow> store \<Rightarrow> store \<times> (exn + response) \<Rightarrow> store \<times> (exn + response)" where
  "require_http_methods ms request st body =
     (if req_method request \<in> set ms then body else (st, Inr (HttpResponseNotAllowed ms)))"

text \<open>
  \<^verbatim>\<open>except Exception as e: return JsonResponse({'success': False, 'error': str(e)})\<close>
  around a block: every exception of the block becomes that response.
\<close>

definition except_Exception :: "store \<times> (exn + response) \<Rightarrow> store \<times> (exn + response)" where
  "except_Exception r =
     (case r of
        (st, Inl e) \<Rightarrow>
          (st, Inr (JsonResponse (PDict [(''success'', PBool False), (''error'', PStr (str_exn e))])))
      | (st, Inr resp) \<Rightarrow> (st, Inr resp))"

text \<open>\<^verbatim>\<open>if request.headers.get('HX-Request')\<close>: the header is there and not empty.\<close>

definition hx_request :: "request \<Rightarrow> bool" where
  "hx_request request = (case headers request ''HX-Request'' of None \<Rightarrow> False | Some v \<Rightarrow> v \<noteq> [])"

definition render :: "request \<Rightarrow> string \<Rightarrow> string \<Rightarrow> (string \<times> pyval) list \<Rightarrow> response" where
  "render request partial page context =
     (if hx_request request then Render partial context else Render page context)"

section \<open>views.py: the listing API\<close>

text \<open>\<^verbatim>\<open>queryset.order_by('-created_at')\<close>; rows with equal keys keep their order.\<close>

definition order_by_created_at_desc :: "customer list \<Rightarrow> customer list" where
  "order_by_created_at_desc cs = sort_key (\<lambda>c. - created_at c) cs"

text \<open>Lines 40 to 61 of \<^verbatim>\<open>customer_list_ajax\<close>: the queryset before the slice.\<close>

definition list_queryset :: "store \<Rightarrow> request \<Rightarrow> customer list" where
  "list_queryset st request =
     (let search = strip (qget (GET request) ''search'' []);
          status_filter = qget (GET request) ''status'' ''active'';
          customers = rows st;
          customers = (if status_filter = ''active'' then filter (\<lambda>c. is_active c) customers
                       else if status_filter = ''inactive'' then filter (\<lambda>c. \<not> is_active c) customers
                       else customers);
          customers = (if search \<noteq> []
                       then filter (\<lambda>c. icontains (name c) search \<or> icontains (phone c) search \<or>
                                        icontains (email c) search \<or> icontains (tax_id c) search)
                              customers
                       else customers)
      in order_by_created_at_desc customers)"

text \<open>The dictionary appended for one customer.\<close>

definition customer_data :: "customer \<Rightarrow> exn + pyval" where
  "customer_data c =
     (case average_purchase c of
        Inl e \<Rightarrow> Inl e
      | Inr avg \<Rightarrow>
          Inr (PDict
            [(''id'', PInt (int (customer_id c))),
             (''name'', PStr (name c)),
             (''phone'', PStr (phone c)),
             (''email'', PStr (email c)),
             (''tax_id'', PStr (tax_id c)),
             (''total_spent'', PFloat (total_spent c)),
             (''visit_count'', PInt (visit_count c)),
             (''average_purchase'', PFloat avg),
             (''last_purchase'',
                (case last_purchase_at c of
                   Some t \<Rightarrow> PStrftime ''%Y-%m-%d %H:%M'' t
                 | None \<Rightarrow> PNone)),
             (''is_active'', PBool (is_active c)),
             (''created_at'', PStrftime ''%Y-%m-%d'' (created_at c))]))"

text \<open>The loop \<^verbatim>\<open>for customer in customers[:100]: customers_data.append({...})\<close>.\<close>

fun customers_data_loop :: "customer list \<Rightarrow> pyval list \<Rightarrow> exn + pyval list" where
  "customers_data_loop [] customers_data = Inr customers_data"
| "customers_data_loop (c # cs) customers_data =
     (case customer_data c of
        Inl e \<Rightarrow> Inl e
      | Inr d \<Rightarrow> customers_data_loop cs (customers_data @ [d]))"

definition customer_list_ajax :: "store \<Rightarrow> request \<Rightarrow> store \<times> (exn + response)" where
  "customer_list_ajax st request =
     require_http_methods [''GET''] request st
       (let customers = list_queryset st request
        in case customers_data_loop (take 100 customers) [] of
             Inl e \<Rightarrow> (st, Inl e)
           | Inr customers_data \<Rightarrow>
               (st, Inr (JsonResponse
                  (PDict [(''success'', PBool True), (''customers'', PList customers_data)]))))"

section \<open>views.py: create, detail, edit\<close>

definition customer_create :: "datetime \<Rightarrow> store \<Rightarrow> request \<Rightarrow> store \<times> (exn + response)" where
  "customer_create now st request =
     require_http_methods [''GET'', ''POST''] request st
       (if req_method request = ''POST'' then
          except_Exception
            (let name = strip (qget (POST request) ''name'' []);
                 email = strip (qget (POST request) ''email'' []);
                 phone = strip (qget (POST request) ''phone'' []);
                 address = strip (qget (POST request) ''address'' []);
                 tax_id = strip (qget (POST request) ''tax_id'' []);
                 notes = strip (qget (POST request) ''notes'' [])
             in if name = [] then
                  (st, Inr (JsonResponse
                     (PDict [(''success'', PBool False),
                             (''error'', PStr (gettext ''El nombre es obligatorio''))])))
                else
                  (case create now st name email phone address tax_id notes of
                     (st', customer) \<Rightarrow>
                       (st', Inr (JsonResponse
                          (PDict [(''success'', PBool True),
                                  (''message'', PStr (gettext ''Cliente creado correctamente'')),
                                  (''customer_id'', PInt (int (customer_id customer)))])))))
        else
          (let context = [(''page_title'', PStr (gettext ''Nuevo Cliente'')),
                          (''customer'', PCustomer None)]
           in (st, Inr (render request ''customer/partials/form_content.html''
                          ''customer/pages/form.html'' context))))"

definition customer_detail :: "sales \<Rightarrow> store \<Rightarrow> request \<Rightarrow> nat \<Rightarrow> store \<times> (exn + response)" where
  "customer_detail sl st request cid =
     require_http_methods [''GET''] request st
       (case get_object_or_404 st cid of
          Inl e \<Rightarrow> (st, Inl e)
        | Inr customer \<Rightarrow>
            (case get_recent_purchases sl customer 10 of
               Inl e \<Rightarrow> (st, Inl e)
             | Inr recent_purchases \<Rightarrow>
                 (let context = [(''customer'', PCustomer (Some customer)),
                                 (''recent_purchases'', PSales recent_purchases),
                                 (''page_title'', PStr (gettext ''Cliente'' @ '': '' @ name customer))]
                  in (st, Inr (render request ''customer/partials/detail_content.html''
                                 ''customer/pages/detail.html'' context)))))"

definition customer_edit :: "datetime \<Rightarrow> store \<Rightarrow> request \<Rightarrow> nat \<Rightarrow> store \<times> (exn + response)" where
  "customer_edit now st request cid =
     require_http_methods [''GET'', ''POST''] request st
       (case get_object_or_404 st cid of
          Inl e \<Rightarrow> (st, Inl e)
        | Inr customer \<Rightarrow>
            (if req_method request = ''POST'' then
               except_Exception
                 (let customer = customer\<lparr>name := strip (qget (POST request) ''name'' [])\<rparr>;
                      customer = customer\<lparr>email := strip (qget (POST request) ''email'' [])\<rparr>;
                      customer = customer\<lparr>phone := strip (qget (POST request) ''phone'' [])\<rparr>;
                      customer = customer\<lparr>address := strip (qget (POST request) ''address'' [])\<rparr>;
                      customer = customer\<lparr>tax_id := strip (qget (POST request) ''tax_id'' [])\<rparr>;
                      customer = customer\<lparr>notes_text := strip (qget (POST request) ''notes'' [])\<rparr>;
                      customer = customer\<lparr>is_active := (POST request ''is_active'' = Some ''on'')\<rparr>
                  in if name customer = [] then
                       (st, Inr (JsonResponse
                          (PDict [(''success'', PBool False),
                                  (''error'', PStr (gettext ''El nombre es obligatorio''))])))
                     else
                       (case save now st customer of
                          (st', _) \<Rightarrow>
                            (st', Inr (JsonResponse
                               (PDict [(''success'', PBool True),
                                       (''message'',
                                        PStr (gettext ''Cliente actualizado correctamente''))])))))
             else
               (let context = [(''customer'', PCustomer (Some customer)),
                               (''page_title'', PStr (gettext ''Editar'' @ '': '' @ name customer))]
                in (st, Inr (render request ''customer/partials/form_content.html''
                               ''customer/pages/form.html'' context)))))"

section \<open>views.py: soft delete, statistics, export\<close>

definition customer_delete :: "datetime \<Rightarrow> store \<Rightarrow> request \<Rightarrow> nat \<Rightarrow> store \<times> (exn + response)" where
  "customer_delete now st request cid =
     require_http_methods [''POST''] request st
       (except_Exception
          (case get_object_or_404 st cid of
             Inl e \<Rightarrow> (st, Inl e)
           | Inr customer \<Rightarrow>
               (let customer = customer\<lparr>is_active := False\<rparr>
                in case save now st customer of
                     (st', _) \<Rightarrow>
                       (st', Inr (JsonResponse
                          (PDict [(''success'', PBool True),
                                  (''message'',
                                   PStr (gettext ''Cliente desactivado correctamente''))]))))))"

definition customer_update_stats ::
    "sales \<Rightarrow> datetime \<Rightarrow> store \<Rightarrow> request \<Rightarrow> nat \<Rightarrow> store \<times> (exn + response)" where
  "customer_update_stats sl now st request cid =
     require_http_methods [''POST''] request st
       (except_Exception
          (case get_object_or_404 st cid of
             Inl e \<Rightarrow> (st, Inl e)
           | Inr customer \<Rightarrow>
               (case update_stats sl now st customer of
                  Inl e \<Rightarrow> (st, Inl e)
                | Inr (st', customer) \<Rightarrow>
                    (case average_purchase customer of
                       Inl e \<Rightarrow> (st', Inl e)
                     | Inr avg \<Rightarrow>
                         (st', Inr (JsonResponse
                            (PDict [(''success'', PBool True),
                                    (''total_spent'', PFloat (total_spent customer)),
                                    (''visit_count'', PInt (visit_count customer)),
                                    (''average_purchase'', PFloat avg)])))))))"

text \<open>\<^verbatim>\<open>Customer.objects.filter(is_active=True).order_by('name')\<close>.\<close>

definition export_queryset :: "store \<Rightarrow> customer list" where
  "export_queryset st = sort_key name (filter (\<lambda>c. is_active c) (rows st))"

definition export_header :: "pyval list" where
  "export_header = [PStr ''Name'', PStr ''Email'', PStr ''Phone'', PStr ''Tax ID'',
                    PStr ''Total Spent'', PStr ''Visit Count'', PStr ''Created At'']"

definition export_row :: "customer \<Rightarrow> pyval list" where
  "export_row c = [PStr (name c), PStr (email c), PStr (phone c), PStr (tax_id c),
                   PDecimal (total_spent c), PInt (visit_count c),
                   PStrftime ''%Y-%m-%d'' (created_at c)]"

text \<open>The loop \<^verbatim>\<open>for customer in customers: writer.writerow([...])\<close>.\<close>

fun export_loop :: "customer list \<Rightarrow> pyval list list \<Rightarrow> pyval list list" where
  "export_loop [] written = written"
| "export_loop (c # cs) written = export_loop cs (written @ [export_row c])"

definition customers_export :: "datetime \<Rightarrow> store \<Rightarrow> request \<Rightarrow> store \<times> (exn + response)" where
  "customers_export now st request =
     require_http_methods [''GET''] request st
       (let disposition = PFString [PStr (''attachment; filename='' @ [CHR 0x22] @ ''customers_''),
                                    PStrftime ''%Y%m%d'' now,
                                    PStr (''.csv'' @ [CHR 0x22])];
            written = [export_header];
            customers = export_queryset st
        in (st, Inr (HttpResponse ''text/csv'' disposition (export_loop customers written))))"

section \<open>The listing API as the specification words it\<close>

text \<open>
  The filter of the listing API in the words of the specification: the status filter
  (active by default) and, when there is a search text, a match of name, phone, email
  or tax identifier. The search text is the \<^verbatim>\<open>search\<close> parameter without the white space
  around it.
\<close>

definition passes_filters :: "request \<Rightarrow> customer \<Rightarrow> bool" where
  "passes_filters request c =
     (let status = qget (GET request) ''status'' ''active'';
          search = strip (qget (GET request) ''search'' [])
      in (status = ''active'' \<longrightarrow> is_active c) \<and>
         (status = ''inactive'' \<longrightarrow> \<not> is_active c) \<and>
         (search \<noteq> [] \<longrightarrow>
            icontains (name c) search \<or> icontains (phone c) search \<or>
            icontains (email c) search \<or> icontains (tax_id c) search))"

text \<open>The list under the key \<^verbatim>\<open>customers\<close> of the listing API's answer.\<close>

definition customers_of :: "store \<times> (exn + response) \<Rightarrow> pyval list" where
  "customers_of r =
     (case snd r of
        Inr (JsonResponse (PDict [_, (_, PList customers_data)])) \<Rightarrow> customers_data
      | _ \<Rightarrow> [])"

text \<open>The value under a key of a returned dictionary, \<^verbatim>\<open>d.get(key)\<close>.\<close>

definition dict_get :: "pyval \<Rightarrow> string \<Rightarrow> pyval option" where
  "dict_get d k = (case d of PDict items \<Rightarrow> map_of items k | _ \<Rightarrow> None)"

section \<open>Sample data\<close>

text \<open>The fixture of the view tests, a store that holds it, and requests.\<close>

definition sample_customer :: customer where
  "sample_customer =
     \<lparr>customer_id = 1, name = ''Test Customer'', email = ''test@example.com'',
      phone = ''+34600123456'', address = ''Test Address'', tax_id = ''12345678Z'',
      total_spent = 0, visit_count = 0, notes_text = [], is_active = True,
      created_at = 100, updated_at = 100, last_purchase_at = None\<rparr>"

definition sample_store :: store where
  "sample_store = \<lparr>rows = [sample_customer], next_id = 2\<rparr>"

definition get_request :: "(string \<times> string) list \<Rightarrow> request" where
  "get_request params =
     \<lparr>req_method = ''GET'', GET = map_of params, POST = Map.empty, headers = Map.empty\<rparr>"

definition post_request :: "(string \<times> string) list \<Rightarrow> request" where
  "post_request form =
     \<lparr>req_method = ''POST'', GET = Map.empty, POST = map_of form, headers = Map.empty\<rparr>"

text \<open>Form posts: a name of blanks only, an edit that leaves out the checkbox, no field at all.\<close>

definition blank_name_post :: request where
  "blank_name_post = post_request [(''name'', ''   ''), (''email'', ''test@example.com'')]"

definition edit_post :: request where
  "edit_post = post_request [(''name'', '' Updated Name ''), (''email'', ''updated@example.com'')]"

definition empty_post :: request where
  "empty_post = post_request []"

text \<open>A listing request whose search text is to be trimmed and matched without regard to case.\<close>

definition search_request :: request where
  "search_request = get_request [(''search'', '' TEST '')]"

text \<open>
  Sales under the name of the fixture, two of them completed, and one completed sale
  of another customer.
\<close>

definition sample_sales :: "sale list" where
  "sample_sales =
     [\<lparr>sale_customer_name = ''Test Customer'', sale_status = ''completed'', sale_total = 10,
       sale_created_at = 5\<rparr>,
      \<lparr>sale_customer_name = ''Test Customer'', sale_status = ''pending'', sale_total = 7,
       sale_created_at = 9\<rparr>,
      \<lparr>sale_customer_name = ''Test Customer'', sale_status = ''completed'', sale_total = 20,
       sale_created_at = 8\<rparr>,
      \<lparr>sale_customer_name = ''Other'', sale_status = ''completed'', sale_total = 50,
       sale_created_at = 11\<rparr>]"

text \<open>
  Customers with a name, a state and a creation time, the other fields at their
  defaults; three customers created one after the other, as in the ordering test of
  the model; and a table that holds an inactive customer and names out of order.
\<close>

definition named_customer :: "nat \<Rightarrow> string \<Rightarrow> bool \<Rightarrow> datetime \<Rightarrow> customer" where
  "named_customer i n a t =
     \<lparr>customer_id = i, name = n, email = [], phone = [], address = [], tax_id = [],
      total_spent = 0, visit_count = 0, notes_text = [], is_active = a,
      created_at = t, updated_at = t, last_purchase_at = None\<rparr>"

definition ordering_store :: store where
  "ordering_store =
     \<lparr>rows = [named_customer 1 ''First'' True 10, named_customer 2 ''Second'' True 20,
              named_customer 3 ''Third'' True 30],
      next_id = 4\<rparr>"

definition mixed_store :: store where
  "mixed_store =
     \<lparr>rows = [named_customer 1 ''Zoe'' True 10, named_customer 2 ''Bob'' False 20,
              named_customer 3 ''Ana'' True 30],
      next_id = 4\<rparr>"

text \<open>
  A store of 101 active customers, created one after the other: customer \<open>i\<close> has key
  \<open>i\<close> and was created at instant \<open>i\<close>.
\<close>

definition numbered_customer :: "nat \<Rightarrow> customer" where
  "numbered_customer i =
     \<lparr>customer_id = i, name = ''Customer'', email = [], phone = [], address = [],
      tax_id = [], total_spent = 0, visit_count = 0, notes_text = [], is_active = True,
      created_at = int i, updated_at = int i, last_purchase_at = None\<rparr>"

definition crowded_store :: store where
  "crowded_store = \<lparr>rows = map numbered_customer [1..<102], next_id = 102\<rparr>"

section \<open>Lemmas on the store and on ordering\<close>

lemma find_map_replace:
  "find (\<lambda>r. customer_id r = i) xs = Some y \<Longrightarrow> customer_id d = i \<Longrightarrow>
   find (\<lambda>r. customer_id r = i) (map (\<lambda>r. if customer_id r = i then d else r) xs) = Some d"
  by (induction xs) (auto split: if_splits)

lemma find_append_new:
  "find (\<lambda>r. customer_id r = i) xs = None \<Longrightarrow> customer_id d = i \<Longrightarrow>
   find (\<lambda>r. customer_id r = i) (xs @ [d]) = Some d"
  by (induction xs) (auto split: if_splits)

lemma snd_save:
  "snd (save now st c) =
     (if get_customer st (customer_id c) = None then c\<lparr>created_at := now, updated_at := now\<rparr>
      else c\<lparr>updated_at := now\<rparr>)"
  by (simp add: save_def Let_def split: option.splits)

lemma get_customer_save:
  "get_customer (fst (save now st c)) (customer_id c) = Some (snd (save now st c))"
  by (auto simp: save_def get_customer_def Let_def find_map_replace find_append_new
      split: option.splits)

lemma first_sort_key:
  fixes g :: "'a \<Rightarrow> int"
  assumes "xs \<noteq> []"
  shows "\<exists>s. first (sort_key g xs) = Some s \<and> s \<in> set xs \<and> (\<forall>t \<in> set xs. g s \<le> g t)"
proof -
  let ?ys = "sort_key g xs"
  from assms have "?ys \<noteq> []" by (metis length_sort length_0_conv)
  then obtain s rest where ys: "?ys = s # rest" by (cases ?ys) auto
  have "sorted (map g ?ys)" by (rule sorted_sort_key)
  with ys have "\<forall>t \<in> set ?ys. g s \<le> g t" by auto
  then have le: "\<forall>t \<in> set xs. g s \<le> g t" by simp
  have "s \<in> set ?ys" using ys by simp
  then have "s \<in> set xs" by simp
  with le ys show ?thesis by (simp add: first_def)
qed

lemma newest_sale:
  assumes "ss \<noteq> []"
  shows "\<exists>s. first (sales_newest_first ss) = Some s \<and>
           sale_created_at s = Max (sale_created_at ` set ss)"
proof -
  from first_sort_key [OF assms, of "\<lambda>s. - sale_created_at s"]
  obtain s where s: "first (sales_newest_first ss) = Some s" "s \<in> set ss"
      "\<forall>t \<in> set ss. sale_created_at t \<le> sale_created_at s"
    by (auto simp: sales_newest_first_def)
  have "Max (sale_created_at ` set ss) = sale_created_at s"
    by (rule Max_eqI) (use s in auto)
  with s show ?thesis by simp
qed

lemma update_stats_Some:
  "update_stats (Some ss) now st c =
     Inr (save now st
       (c\<lparr>visit_count := int (length (customer_sales ss c)),
          total_spent := sum_list (map sale_total (customer_sales ss c)),
          last_purchase_at :=
            (if customer_sales ss c = [] then last_purchase_at c
             else Some (Max (sale_created_at ` set (customer_sales ss c))))\<rparr>))"
proof (cases "customer_sales ss c = []")
  case True
  then show ?thesis
    by (simp add: update_stats_def import_Sale_def first_def sales_newest_first_def
        or_zero_def aggregate_sum_total_def)
next
  case False
  from newest_sale [OF False] obtain s where
    "first (sales_newest_first (customer_sales ss c)) = Some s"
    "sale_created_at s = Max (sale_created_at ` set (customer_sales ss c))"
    by blast
  with False show ?thesis
    by (simp add: update_stats_def import_Sale_def or_zero_def aggregate_sum_total_def Let_def)
qed

section \<open>Lemmas on decimal arithmetic\<close>

lemma round_half_even_error: "\<bar>of_int (round_half_even y) - y\<bar> \<le> 1 / 2"
proof -
  define f where "f = \<lfloor>y\<rfloor>"
  have b: "of_int f \<le> y" "y < of_int f + 1" unfolding f_def by linarith+
  consider "y - of_int f < 1 / 2" | "1 / 2 < y - of_int f" | "y - of_int f = 1 / 2"
    by linarith
  then show ?thesis
  proof cases
    case 1
    then have "round_half_even y = f" by (simp add: round_half_even_def f_def)
    with 1 b show ?thesis by simp
  next
    case 2
    then have "round_half_even y = f + 1" by (simp add: round_half_even_def f_def)
    with 2 b show ?thesis by simp
  next
    case 3
    then have "round_half_even y = f \<or> round_half_even y = f + 1"
      by (simp add: round_half_even_def f_def Let_def)
    with 3 b show ?thesis by auto
  qed
qed

lemma round_half_even_of_int: "round_half_even (of_int n) = n"
  by (simp add: round_half_even_def)

lemma adjusted_bounds:
  assumes "x \<noteq> 0"
  shows "10 powi adjusted x \<le> \<bar>x\<bar> \<and> \<bar>x\<bar> < 10 powi (adjusted x + 1)"
proof -
  obtain a b where q: "quotient_of x = (a, b)" by (cases "quotient_of x")
  then have b: "0 < b" and x: "x = of_int a / of_int b"
    by (simp_all add: quotient_of_denom_pos quotient_of_div)
  with assms have a: "a \<noteq> 0" by auto
  define n where "n = nat \<bar>a\<bar>"
  define d where "d = nat b"
  define dn where "dn = floorlog 10 n"
  define dd where "dd = floorlog 10 d"
  define k where "k = int dn - int dd"
  have n: "0 < n" and d: "0 < d" using a b by (simp_all add: n_def d_def)
  have "\<bar>x\<bar> = of_int \<bar>a\<bar> / of_int b"
    using b by (simp add: x)
  also have "\<dots> = of_nat n / of_nat d"
    using b by (simp add: n_def d_def)
  finally have ax: "\<bar>x\<bar> = of_nat n / of_nat d" .
  have bn: "10 ^ (dn - 1) \<le> n" "n < 10 ^ dn"
    using floorlog_bounds [of n 10] n by (simp_all add: dn_def)
  have bd: "10 ^ (dd - 1) \<le> d" "d < 10 ^ dd"
    using floorlog_bounds [of d 10] d by (simp_all add: dd_def)
  have dn1: "1 \<le> dn" and dd1: "1 \<le> dd"
    using n d floorlog_eq_zero_iff [of 10 n] floorlog_eq_zero_iff [of 10 d]
    by (simp_all add: dn_def dd_def Suc_le_eq)
  have rn: "(10::rat) ^ (dn - 1) \<le> of_nat n" "(of_nat n :: rat) < 10 ^ dn"
    using bn by (metis of_nat_le_iff of_nat_numeral of_nat_power, metis of_nat_less_iff of_nat_numeral of_nat_power)
  have rd: "(10::rat) ^ (dd - 1) \<le> of_nat d" "(of_nat d :: rat) < 10 ^ dd"
    using bd by (metis of_nat_le_iff of_nat_numeral of_nat_power, metis of_nat_less_iff of_nat_numeral of_nat_power)
  have pn: "(0::rat) < of_nat n" and pd: "(0::rat) < of_nat d" using n d by simp_all
  have lo: "(10::rat) powi (k - 1) < \<bar>x\<bar>"
  proof -
    have "k - 1 = int (dn - 1) - int dd"
      using dn1 unfolding k_def by linarith
    then have "(10::rat) powi (k - 1) = 10 powi (int (dn - 1) - int dd)"
      by (simp only:)
    also have "\<dots> = 10 ^ (dn - 1) / 10 ^ dd"
      by (simp add: power_int_diff)
    also have "\<dots> \<le> of_nat n / 10 ^ dd"
      using rn(1) by (simp add: divide_right_mono)
    also have "\<dots> < of_nat n / of_nat d"
      using rd(2) pn pd by (simp add: divide_strict_left_mono)
    finally show ?thesis by (simp add: ax)
  qed
  have hi: "\<bar>x\<bar> < (10::rat) powi (k + 1)"
  proof -
    have "\<bar>x\<bar> = of_nat n / of_nat d" by (fact ax)
    also have "\<dots> < 10 ^ dn / of_nat d"
      using rn(2) pd by (simp add: divide_strict_right_mono)
    also have "\<dots> \<le> 10 ^ dn / 10 ^ (dd - 1)"
      using rd(1) pd by (simp add: divide_left_mono)
    also have "\<dots> = 10 powi (int dn - int (dd - 1))"
      by (simp add: power_int_diff)
    also have "\<dots> = 10 powi (k + 1)"
    proof -
      have "int dn - int (dd - 1) = k + 1"
        using dd1 unfolding k_def by linarith
      then show ?thesis by (simp only:)
    qed
    finally show ?thesis .
  qed
  have adj: "adjusted x = (if 10 powi k \<le> \<bar>x\<bar> then k else k - 1)"
    by (simp add: adjusted_def q Let_def k_def dn_def dd_def n_def d_def)
  show ?thesis
  proof (cases "(10::rat) powi k \<le> \<bar>x\<bar>")
    case True
    with hi adj show ?thesis by simp
  next
    case False
    with lo adj show ?thesis by simp
  qed
qed


lemma context_round_error:
  assumes "x \<noteq> 0"
  shows "\<bar>context_round x - x\<bar> \<le> \<bar>x\<bar> * 5 / 10 ^ 28"
proof -
  define e where "e = adjusted x - 27"
  define p :: rat where "p = 10 powi e"
  define r where "r = round_half_even (x / p)"
  have p: "0 < p" by (simp add: p_def zero_less_power_int)
  have c: "context_round x = of_int r * p"
    using assms by (simp add: context_round_def prec_def Let_def e_def p_def r_def)
  have "\<bar>of_int r * p - x\<bar> = \<bar>of_int r - x / p\<bar> * p"
  proof -
    have "of_int r * p - x = (of_int r - x / p) * p"
      using p by (simp add: field_simps)
    then show ?thesis using p by (simp add: abs_mult)
  qed
  also have "\<dots> \<le> (1 / 2) * p"
    using round_half_even_error [of "x / p"] p unfolding r_def
    by (intro mult_right_mono) simp_all
  also have "\<dots> \<le> (1 / 2) * (\<bar>x\<bar> / 10 ^ 27)"
  proof -
    have "adjusted x = e + 27" by (simp add: e_def)
    then have "(10::rat) powi adjusted x = p * 10 ^ 27"
      by (simp add: p_def power_int_add)
    with adjusted_bounds [OF assms] have "p * 10 ^ 27 \<le> \<bar>x\<bar>" by simp
    then have "p \<le> \<bar>x\<bar> / 10 ^ 27" by (simp add: field_simps)
    then show ?thesis by simp
  qed
  finally show ?thesis by (simp add: c)
qed

lemma context_round_exact:
  assumes x: "x = of_int n * 10 powi k" and n: "\<bar>n\<bar> < 10 ^ 28"
  shows "context_round x = x"
proof (cases "x = 0")
  case True
  then show ?thesis by (simp add: context_round_def)
next
  case False
  define e where "e = adjusted x - 27"
  have "(10::rat) powi adjusted x \<le> \<bar>x\<bar>"
    using adjusted_bounds [OF False] by simp
  also have "\<bar>x\<bar> = of_int \<bar>n\<bar> * 10 powi k"
    by (simp add: x abs_mult)
  also have "\<dots> < 10 ^ 28 * 10 powi k"
  proof -
    have "(of_int \<bar>n\<bar> :: rat) < of_int (10 ^ 28)" using n by (simp only: of_int_less_iff)
    then have "(of_int \<bar>n\<bar> :: rat) < 10 ^ 28" by simp
    then show ?thesis by (simp add: zero_less_power_int)
  qed
  also have "\<dots> = 10 powi (28 + k)"
    by (simp add: power_int_add)
  finally have lt: "(10::rat) powi adjusted x < 10 powi (28 + k)" .
  have "adjusted x < 28 + k"
  proof (rule ccontr)
    assume "\<not> adjusted x < 28 + k"
    then have "28 + k \<le> adjusted x" by simp
    then have "(10::rat) powi (28 + k) \<le> 10 powi adjusted x"
      by (rule power_int_increasing) simp
    with lt show False by simp
  qed
  then have ek: "e \<le> k" by (simp add: e_def)
  define m where "m = nat (k - e)"
  have km: "k = e + int m" using ek by (simp add: m_def)
  have "x / 10 powi e = of_int n * 10 ^ m"
    by (simp add: x km power_int_add)
  also have "\<dots> = of_int (n * 10 ^ m)" by simp
  finally have q: "x / 10 powi e = of_int (n * 10 ^ m)" .
  have "context_round x = of_int (round_half_even (x / 10 powi e)) * 10 powi e"
    using False by (simp add: context_round_def prec_def Let_def e_def)
  also have "\<dots> = of_int (n * 10 ^ m) * 10 powi e"
    by (simp only: q round_half_even_of_int)
  also have "\<dots> = x"
    by (simp add: x km power_int_add)
  finally show ?thesis .
qed

section \<open>Properties of models.py\<close>

text \<open>
  C3: with the sales dataset reachable, update_stats sets visit_count to the number of
  sales recorded under the customer's current name with status "completed", total_spent
  to the sum of their totals (0 when there are none) and last_purchase_at to the
  creation time of the most recent of them (unchanged when there are none), then saves
  the record: updated_at is the clock, created_at is kept when the record has a stored
  row and is the clock when the save inserts it, no other field changes, and the
  record is then the stored one.
\<close>

theorem update_stats_reachable:
  fixes ss :: "sale list" and c :: customer
  defines "m \<equiv> filter (\<lambda>s. sale_customer_name s = name c \<and> sale_status s = ''completed'') ss"
  shows "\<exists>st' c'. update_stats (Some ss) now st c = Inr (st', c') \<and>
           visit_count c' = int (length m) \<and>
           total_spent c' = sum_list (map sale_total m) \<and>
           last_purchase_at c' =
             (if m = [] then last_purchase_at c else Some (Max (sale_created_at ` set m))) \<and>
           updated_at c' = now \<and>
           created_at c' =
             (if get_customer st (customer_id c) = None then now else created_at c) \<and>
           c' = c\<lparr>visit_count := visit_count c', total_spent := total_spent c',
                  last_purchase_at := last_purchase_at c', created_at := created_at c',
                  updated_at := now\<rparr> \<and>
           get_customer st' (customer_id c) = Some c'"
proof -
  have m: "customer_sales ss c = m"
    by (simp add: customer_sales_def m_def STATUS_COMPLETED_def)
  define d where "d = c\<lparr>visit_count := int (length m),
          total_spent := sum_list (map sale_total m),
          last_purchase_at :=
            (if m = [] then last_purchase_at c else Some (Max (sale_created_at ` set m)))\<rparr>"
  have u: "update_stats (Some ss) now st c = Inr (fst (save now st d), snd (save now st d))"
    by (simp add: update_stats_Some m d_def)
  have k: "customer_id d = customer_id c" by (simp add: d_def)
  have g: "get_customer (fst (save now st d)) (customer_id c) = Some (snd (save now st d))"
    using get_customer_save [of now st d] by (simp only: k)
  have s: "snd (save now st d) =
      (if get_customer st (customer_id c) = None then d\<lparr>created_at := now, updated_at := now\<rparr>
       else d\<lparr>updated_at := now\<rparr>)"
    by (simp only: snd_save k)
  show ?thesis
  proof (cases "get_customer st (customer_id c) = None")
    case True
    with s have "snd (save now st d) = d\<lparr>created_at := now, updated_at := now\<rparr>" by simp
    with g True show ?thesis unfolding u by (simp add: d_def)
  next
    case False
    then obtain y where y: "get_customer st (customer_id c) = Some y" by auto
    with s have "snd (save now st d) = d\<lparr>updated_at := now\<rparr>" by simp
    with g y show ?thesis unfolding u by (simp add: d_def)
  qed
qed

theorem update_stats_reachable_witness:
  "(\<exists>st' c'. update_stats (Some sample_sales) 300 sample_store sample_customer = Inr (st', c') \<and>
      visit_count c' = 2 \<and> total_spent c' = 30 \<and> last_purchase_at c' = Some 8 \<and>
      updated_at c' = 300 \<and> created_at c' = 100 \<and> get_customer st' 1 = Some c') \<and>
   (\<exists>st' c'. update_stats (Some sample_sales) 300 \<lparr>rows = [], next_id = 1\<rparr> sample_customer =
        Inr (st', c') \<and>
      visit_count c' = 2 \<and> total_spent c' = 30 \<and> last_purchase_at c' = Some 8 \<and>
      updated_at c' = 300 \<and> created_at c' = 300 \<and> get_customer st' 1 = Some c')"
proof -
  have m: "filter (\<lambda>s. sale_customer_name s = name sample_customer \<and>
             sale_status s = ''completed'') sample_sales =
           [\<lparr>sale_customer_name = ''Test Customer'', sale_status = ''completed'',
              sale_total = 10, sale_created_at = 5\<rparr>,
            \<lparr>sale_customer_name = ''Test Customer'', sale_status = ''completed'',
              sale_total = 20, sale_created_at = 8\<rparr>]"
    by (simp add: sample_sales_def sample_customer_def)
  have i: "customer_id sample_customer = 1" "created_at sample_customer = 100"
    by (simp_all add: sample_customer_def)
  have g: "get_customer sample_store 1 = Some sample_customer"
    "get_customer \<lparr>rows = [], next_id = 1\<rparr> 1 = None"
    by (simp_all add: get_customer_def sample_store_def sample_customer_def)
  have a: "\<exists>st' c'. update_stats (Some sample_sales) 300 sample_store sample_customer = Inr (st', c') \<and>
      visit_count c' = 2 \<and> total_spent c' = 30 \<and> last_purchase_at c' = Some 8 \<and>
      updated_at c' = 300 \<and> created_at c' = 100 \<and> get_customer st' 1 = Some c'"
    using update_stats_reachable [of sample_sales 300 sample_store sample_customer]
    unfolding m i g by simp blast
  have b: "\<exists>st' c'. update_stats (Some sample_sales) 300 \<lparr>rows = [], next_id = 1\<rparr> sample_customer =
        Inr (st', c') \<and>
      visit_count c' = 2 \<and> total_spent c' = 30 \<and> last_purchase_at c' = Some 8 \<and>
      updated_at c' = 300 \<and> created_at c' = 300 \<and> get_customer st' 1 = Some c'"
    using update_stats_reachable [of sample_sales 300 "\<lparr>rows = [], next_id = 1\<rparr>" sample_customer]
    unfolding m i g by simp blast
  from a b show ?thesis by (rule conjI)
qed

text \<open>
  C4: with the sales dataset unreachable, update_stats returns normally with the store
  and the instance as they were, and get_recent_purchases returns the empty sequence.
\<close>

theorem sales_unreachable:
  "update_stats None now st c = Inr (st, c) \<and> get_recent_purchases None c limit = Inr []"
  by (simp add: update_stats_def get_recent_purchases_def import_Sale_def)

theorem sales_unreachable_witness:
  "update_stats None 12
     \<lparr>rows = [\<lparr>customer_id = 1, name = ''Test'', email = [], phone = [], address = [],
               tax_id = [], total_spent = 0, visit_count = 0, notes_text = [],
               is_active = True, created_at = 1, updated_at = 1,
               last_purchase_at = None\<rparr>], next_id = 2\<rparr>
     \<lparr>customer_id = 1, name = ''Test'', email = [], phone = [], address = [],
       tax_id = [], total_spent = 0, visit_count = 0, notes_text = [],
       is_active = True, created_at = 1, updated_at = 1, last_purchase_at = None\<rparr>
   = Inr (\<lparr>rows = [\<lparr>customer_id = 1, name = ''Test'', email = [], phone = [], address = [],
               tax_id = [], total_spent = 0, visit_count = 0, notes_text = [],
               is_active = True, created_at = 1, updated_at = 1,
               last_purchase_at = None\<rparr>], next_id = 2\<rparr>,
          \<lparr>customer_id = 1, name = ''Test'', email = [], phone = [], address = [],
            tax_id = [], total_spent = 0, visit_count = 0, notes_text = [],
            is_active = True, created_at = 1, updated_at = 1, last_purchase_at = None\<rparr>)"
  using sales_unreachable
    [of 12 "\<lparr>rows = [\<lparr>customer_id = 1, name = ''Test'', email = [], phone = [], address = [],
               tax_id = [], total_spent = 0, visit_count = 0, notes_text = [],
               is_active = True, created_at = 1, updated_at = 1,
               last_purchase_at = None\<rparr>], next_id = 2\<rparr>"
        "\<lparr>customer_id = 1, name = ''Test'', email = [], phone = [], address = [],
       tax_id = [], total_spent = 0, visit_count = 0, notes_text = [],
       is_active = True, created_at = 1, updated_at = 1, last_purchase_at = None\<rparr>" 10]
  by simp

text \<open>
  C7: average_purchase never raises. When visit_count is not positive it is 0.00. When
  visit_count is positive it is total_spent divided by visit_count in decimal
  arithmetic: the quotient itself whenever 28 significant digits hold it, and otherwise
  the quotient rounded to 28 significant digits, which is off by at most five units in
  the 29th digit.
\<close>

theorem average_purchase_total:
  "\<exists>a. average_purchase c = Inr a \<and>
     (visit_count c \<le> 0 \<longrightarrow> a = 0) \<and>
     (0 < visit_count c \<longrightarrow>
        decimal_div (total_spent c) (visit_count c) = Inr a \<and>
        a = context_round (total_spent c / of_int (visit_count c)) \<and>
        \<bar>a - total_spent c / of_int (visit_count c)\<bar> \<le>
          \<bar>total_spent c / of_int (visit_count c)\<bar> * 5 / 10 ^ 28 \<and>
        (\<forall>n k. total_spent c / of_int (visit_count c) = of_int n * 10 powi k \<and> \<bar>n\<bar> < 10 ^ 28
           \<longrightarrow> a = total_spent c / of_int (visit_count c)))"
proof (cases "0 < visit_count c")
  case False
  then show ?thesis by (simp add: average_purchase_def)
next
  case True
  let ?q = "total_spent c / of_int (visit_count c)"
  have d: "decimal_div (total_spent c) (visit_count c) = Inr (context_round ?q)"
    using True by (simp add: decimal_div_def)
  have a: "average_purchase c = Inr (context_round ?q)"
    using True d by (simp add: average_purchase_def)
  have e: "\<bar>context_round ?q - ?q\<bar> \<le> \<bar>?q\<bar> * 5 / 10 ^ 28"
  proof (cases "?q = 0")
    case zero: True
    have "context_round 0 = 0" by (simp add: context_round_def)
    then show ?thesis by (simp only: zero)
  next
    case nonzero: False
    then show ?thesis by (rule context_round_error)
  qed
  have x: "context_round ?q = ?q" if "?q = of_int n * 10 powi k" "\<bar>n\<bar> < 10 ^ 28" for n k
    using that by (rule context_round_exact)
  from True a d e x show ?thesis by auto
qed

theorem average_purchase_total_witness:
  "average_purchase ((named_customer 1 ''Regular Customer'' True 0)
      \<lparr>total_spent := 100, visit_count := 4\<rparr>) = Inr 25 \<and>
   average_purchase ((named_customer 1 ''Regular Customer'' True 0)
      \<lparr>total_spent := 100, visit_count := 3\<rparr>) =
     Inr (3333333333333333333333333333 / 10 ^ 26) \<and>
   average_purchase ((named_customer 1 ''Regular Customer'' True 0)
      \<lparr>total_spent := 100, visit_count := 0\<rparr>) = Inr 0"
proof -
  let ?c = "\<lambda>t v. (named_customer 1 ''Regular Customer'' True 0)\<lparr>total_spent := t, visit_count := v\<rparr>"
  have f: "total_spent (?c t v) = t" "visit_count (?c t v) = v" for t v
    by (simp_all add: named_customer_def)
  have q: "context_round (100 / of_int 4) = 25"
    by code_simp
  have r: "context_round (100 / of_int 3) = 3333333333333333333333333333 / 10 ^ 26"
    by code_simp
  have "average_purchase (?c 100 4) = Inr 25"
    using average_purchase_total [of "?c 100 4"] q unfolding f by auto
  moreover have "average_purchase (?c 100 3) = Inr (3333333333333333333333333333 / 10 ^ 26)"
    using average_purchase_total [of "?c 100 3"] r unfolding f by auto
  moreover have "average_purchase (?c 100 0) = Inr 0"
    using average_purchase_total [of "?c 100 0"] unfolding f by auto
  ultimately show ?thesis by simp
qed

section \<open>Lemmas on the handlers\<close>

lemma get_customer_id: "get_customer st i = Some c \<Longrightarrow> customer_id c = i"
  by (auto simp: get_customer_def find_Some_iff)

lemma get_object_or_404_Some: "get_customer st i = Some c \<Longrightarrow> get_object_or_404 st i = Inr c"
  by (simp add: get_object_or_404_def)

lemma get_object_or_404_None:
  "get_customer st i = None \<Longrightarrow>
   get_object_or_404 st i = Inl (Http404 ''No Customer matches the given query.'')"
  by (simp add: get_object_or_404_def)

lemma find_map_other:
  "j \<noteq> i \<Longrightarrow> customer_id d = i \<Longrightarrow>
   find (\<lambda>r. customer_id r = j) (map (\<lambda>r. if customer_id r = i then d else r) xs) =
   find (\<lambda>r. customer_id r = j) xs"
  by (induction xs) auto

lemma save_existing:
  assumes "get_customer st (customer_id c) = Some y"
  shows "save now st c =
    (st\<lparr>rows := map (\<lambda>r. if customer_id r = customer_id c then c\<lparr>updated_at := now\<rparr> else r) (rows st)\<rparr>,
     c\<lparr>updated_at := now\<rparr>)"
  using assms by (simp add: save_def Let_def)

lemma snd_save_existing:
  assumes "get_customer st (customer_id c) = Some y"
  shows "snd (save now st c) = c\<lparr>updated_at := now\<rparr>"
  unfolding save_existing [OF assms] by simp

lemma save_existing_keys:
  assumes "get_customer st (customer_id c) = Some y"
  shows "map customer_id (rows (fst (save now st c))) = map customer_id (rows st)"
  unfolding save_existing [OF assms] by (induction "rows st") (auto simp: comp_def)

lemma strip_Nil: "strip [] = []"
  by (simp add: strip_def)

lemma unknown_id_detail_edit_404:
  assumes "get_customer st cid = None"
  shows "req_method request = ''GET'' \<Longrightarrow> status_code (snd (customer_detail sl st request cid)) = 404"
    and "req_method request \<in> {''GET'', ''POST''} \<Longrightarrow>
         status_code (snd (customer_edit now st request cid)) = 404"
  using assms
  by (auto simp: customer_detail_def customer_edit_def require_http_methods_def
      get_object_or_404_None)

lemma unknown_id_delete_stats_200:
  assumes "get_customer st cid = None" and "req_method request = ''POST''"
  shows "status_code (snd (customer_delete now st request cid)) = 200"
    and "status_code (snd (customer_update_stats sl now st request cid)) = 200"
  using assms
  by (auto simp: customer_delete_def customer_update_stats_def require_http_methods_def
      get_object_or_404_None except_Exception_def)

lemma average_purchase_Inr: "\<exists>a. average_purchase c = Inr a"
  by (simp add: average_purchase_def decimal_div_def)

lemma customer_data_Inr: "\<exists>d. customer_data c = Inr d"
  using average_purchase_Inr [of c] by (auto simp: customer_data_def)

lemma customer_data_fields:
  assumes "customer_data c = customer_data c'"
  shows "name c = name c' \<and> phone c = phone c' \<and> email c = email c' \<and>
         tax_id c = tax_id c' \<and> is_active c = is_active c'"
proof -
  obtain a a' where "average_purchase c = Inr a" "average_purchase c' = Inr a'"
    using average_purchase_Inr by blast
  with assms show ?thesis by (simp add: customer_data_def)
qed

lemma customer_data_passes:
  "customer_data c = customer_data c' \<Longrightarrow> passes_filters request c = passes_filters request c'"
  by (drule customer_data_fields) (simp add: passes_filters_def)

lemma customers_data_loop_map:
  "\<exists>ds. customers_data_loop cs acc = Inr (acc @ ds) \<and> map Inr ds = map customer_data cs"
proof (induction cs arbitrary: acc)
  case Nil
  then show ?case by simp
next
  case (Cons c cs)
  obtain d where d: "customer_data c = Inr d" using customer_data_Inr by blast
  from Cons [of "acc @ [d]"] obtain ds where
    "customers_data_loop cs (acc @ [d]) = Inr ((acc @ [d]) @ ds)" "map Inr ds = map customer_data cs"
    by blast
  with d show ?case by (intro exI [of _ "d # ds"]) simp
qed



lemma list_queryset_filter:
  "list_queryset st request =
     order_by_created_at_desc (filter (passes_filters request) (rows st))"
proof -
  let ?status = "qget (GET request) ''status'' ''active''"
  let ?search = "strip (qget (GET request) ''search'' [])"
  let ?m = "\<lambda>c. icontains (name c) ?search \<or> icontains (phone c) ?search \<or>
                icontains (email c) ?search \<or> icontains (tax_id c) ?search"
  have p: "passes_filters request =
      (\<lambda>c. ((?status = ''active'' \<longrightarrow> is_active c) \<and> (?status = ''inactive'' \<longrightarrow> \<not> is_active c)) \<and>
           (?search \<noteq> [] \<longrightarrow> ?m c))"
    by (rule ext) (simp add: passes_filters_def Let_def)
  have q: "list_queryset st request =
      order_by_created_at_desc
        (filter (\<lambda>c. ?search \<noteq> [] \<longrightarrow> ?m c)
          (filter (\<lambda>c. (?status = ''active'' \<longrightarrow> is_active c) \<and>
                        (?status = ''inactive'' \<longrightarrow> \<not> is_active c)) (rows st)))"
    by (simp add: list_queryset_def Let_def)
  show ?thesis unfolding q p by (simp only: filter_filter conj_commute)
qed

lemma customer_list_ajax_GET:
  assumes "req_method request = ''GET''"
  shows "\<exists>data. customer_list_ajax st request =
            (st, Inr (JsonResponse (PDict [(''success'', PBool True), (''customers'', PList data)]))) \<and>
          map Inr data = map customer_data (take 100 (list_queryset st request))"
proof -
  from customers_data_loop_map [of "take 100 (list_queryset st request)" "[]"]
  obtain ds where "customers_data_loop (take 100 (list_queryset st request)) [] = Inr ds"
    "map Inr ds = map customer_data (take 100 (list_queryset st request))"
    by auto
  with assms show ?thesis
    by (simp add: customer_list_ajax_def require_http_methods_def)
qed

lemma sorted_created_desc:
  "sorted_wrt (\<lambda>a b. created_at b \<le> created_at a) (order_by_created_at_desc cs)"
proof -
  have "sorted (map (\<lambda>c. - created_at c) (order_by_created_at_desc cs))"
    unfolding order_by_created_at_desc_def by (rule sorted_sort_key)
  then show ?thesis by (simp add: sorted_map)
qed

lemma customer_data_entries:
  assumes "customer_data c = Inr d"
  shows "dict_get d ''id'' = Some (PInt (int (customer_id c)))"
    and "dict_get d ''created_at'' = Some (PStrftime ''%Y-%m-%d'' (created_at c))"
proof -
  obtain a where "average_purchase c = Inr a"
    using average_purchase_Inr by blast
  with assms show "dict_get d ''id'' = Some (PInt (int (customer_id c)))"
    and "dict_get d ''created_at'' = Some (PStrftime ''%Y-%m-%d'' (created_at c))"
    by (auto simp: customer_data_def dict_get_def)
qed

lemma map_Inr_customer_data:
  assumes "map Inr data = map customer_data cs"
  shows "list_all2 (\<lambda>d c. customer_data c = Inr d) data cs"
proof -
  have l: "length data = length cs"
    using assms by (rule map_eq_imp_length_eq)
  have "customer_data (cs ! i) = Inr (data ! i)" if "i < length data" for i
  proof -
    have "map customer_data cs ! i = map Inr data ! i"
      by (simp only: assms)
    with that l show ?thesis by simp
  qed
  with l show ?thesis by (simp add: list_all2_conv_all_nth)
qed

lemma export_loop_rows:
  "export_loop cs written =
     written @ map (\<lambda>c. [PStr (name c), PStr (email c), PStr (phone c), PStr (tax_id c),
                           PDecimal (total_spent c), PInt (visit_count c),
                           PStrftime ''%Y-%m-%d'' (created_at c)]) cs"
  by (induction cs arbitrary: written) (simp_all add: export_row_def)

lemma mset_pair_cases:
  assumes "mset cs = {#a, b#}"
  shows "cs = [a, b] \<or> cs = [b, a]"
proof -
  from assms have "size (mset cs) = 2" by simp
  then have "length cs = 2" by simp
  then obtain x y where cs: "cs = [x, y]"
    by (cases cs; cases "tl cs") auto
  with assms have "{#x, y#} = {#a, b#}" by simp
  then have "x = a \<and> y = b \<or> x = b \<and> y = a"
    by (auto simp: add_eq_conv_ex)
  with cs show ?thesis by auto
qed

section \<open>Properties of views.py\<close>

text \<open>
  C1: a request for a customer identifier that no stored customer has is answered with
  the 404 response. The delete and update-stats handlers do not: they look the customer
  up inside the block whose exceptions they turn into a JSON answer, so the request
  below, a POST for identifier 99999 on an empty table, is answered with status 200 and
  success false. (The lemma \<open>unknown_id_detail_edit_404\<close> is the 404 of the detail and edit
  handlers.)
\<close>

theorem unknown_id_delete_is_not_404:
  "customer_delete 0 \<lparr>rows = [], next_id = 1\<rparr>
     \<lparr>req_method = ''POST'', GET = Map.empty, POST = Map.empty, headers = Map.empty\<rparr> 99999 =
   (\<lparr>rows = [], next_id = 1\<rparr>,
    Inr (JsonResponse (PDict [(''success'', PBool False),
                              (''error'', PStr ''No Customer matches the given query.'')]))) \<and>
   status_code (snd (customer_delete 0 \<lparr>rows = [], next_id = 1\<rparr>
     \<lparr>req_method = ''POST'', GET = Map.empty, POST = Map.empty, headers = Map.empty\<rparr> 99999)) = 200 \<and>
   status_code (snd (customer_update_stats None 0 \<lparr>rows = [], next_id = 1\<rparr>
     \<lparr>req_method = ''POST'', GET = Map.empty, POST = Map.empty, headers = Map.empty\<rparr> 99999)) = 200"
  by (simp add: customer_delete_def customer_update_stats_def require_http_methods_def
      except_Exception_def get_object_or_404_def get_customer_def)

text \<open>
  C2: a create POST or an edit POST whose name is empty once trimmed is answered with
  success false and an error message that is not empty, and the store is as it was:
  no row is created, and the customer the edit names keeps every stored field.
\<close>

theorem blank_name_rejected:
  assumes "req_method request = ''POST''"
    and "strip (qget (POST request) ''name'' []) = []"
  shows "(\<exists>msg. msg \<noteq> [] \<and>
            customer_create now st request =
              (st, Inr (JsonResponse (PDict [(''success'', PBool False), (''error'', PStr msg)])))) \<and>
         (get_customer st cid \<noteq> None \<longrightarrow>
            (\<exists>msg. msg \<noteq> [] \<and>
               customer_edit now st request cid =
                 (st, Inr (JsonResponse (PDict [(''success'', PBool False), (''error'', PStr msg)])))))"
  using assms
  by (auto simp: customer_create_def customer_edit_def require_http_methods_def
      except_Exception_def gettext_def get_object_or_404_def Let_def)

theorem blank_name_rejected_witness:
  "req_method blank_name_post = ''POST'' \<and>
   strip (qget (POST blank_name_post) ''name'' []) = [] \<and>
   get_customer sample_store 1 \<noteq> None \<and>
   (\<exists>msg. msg \<noteq> [] \<and>
      customer_create 200 sample_store blank_name_post =
        (sample_store,
         Inr (JsonResponse (PDict [(''success'', PBool False), (''error'', PStr msg)])))) \<and>
   (\<exists>msg. msg \<noteq> [] \<and>
      customer_edit 200 sample_store blank_name_post 1 =
        (sample_store,
         Inr (JsonResponse (PDict [(''success'', PBool False), (''error'', PStr msg)]))))"
proof -
  have m: "req_method blank_name_post = ''POST''"
    by (simp add: blank_name_post_def post_request_def)
  have n: "strip (qget (POST blank_name_post) ''name'' []) = []"
    by (simp add: blank_name_post_def post_request_def qget_def strip_def isspace_def)
  have g: "get_customer sample_store 1 \<noteq> None"
    by (simp add: get_customer_def sample_store_def sample_customer_def)
  from blank_name_rejected [OF m n, of 200 sample_store 1] m n g show ?thesis
    by blast
qed

text \<open>
  C9: a soft delete that succeeds sets is_active to false and updated_at to the clock,
  changes no other field of the customer and no other customer, and removes no row: the
  customer is still found under its identifier.
\<close>

theorem soft_delete:
  assumes "req_method request = ''POST''" and "get_customer st cid = Some c"
  shows "\<exists>st'. customer_delete now st request cid =
            (st', Inr (JsonResponse (PDict [(''success'', PBool True),
                        (''message'', PStr ''Cliente desactivado correctamente'')]))) \<and>
          get_customer st' cid = Some (c\<lparr>is_active := False, updated_at := now\<rparr>) \<and>
          map customer_id (rows st') = map customer_id (rows st) \<and>
          (\<forall>i. i \<noteq> cid \<longrightarrow> get_customer st' i = get_customer st i)"
proof -
  let ?d = "c\<lparr>is_active := False\<rparr>"
  have cid: "customer_id c = cid" using assms(2) by (rule get_customer_id)
  then have ex: "get_customer st (customer_id ?d) = Some c" using assms(2) by simp
  have r: "customer_delete now st request cid =
      (fst (save now st ?d), Inr (JsonResponse (PDict [(''success'', PBool True),
                        (''message'', PStr ''Cliente desactivado correctamente'')])))"
    using assms
    by (simp add: customer_delete_def require_http_methods_def except_Exception_def
        get_object_or_404_Some gettext_def Let_def split: prod.splits)
  have g: "get_customer (fst (save now st ?d)) cid = Some (?d\<lparr>updated_at := now\<rparr>)"
    using get_customer_save [of now st ?d] snd_save_existing [OF ex, of now] cid by simp
  have k: "map customer_id (rows (fst (save now st ?d))) = map customer_id (rows st)"
    by (rule save_existing_keys [OF ex])
  have o: "get_customer (fst (save now st ?d)) i = get_customer st i" if "i \<noteq> cid" for i
    unfolding save_existing [OF ex] using that cid
    by (simp add: get_customer_def find_map_other)
  show ?thesis using r g k o by simp
qed

theorem soft_delete_witness:
  "req_method empty_post = ''POST'' \<and>
   get_customer sample_store 1 = Some sample_customer \<and>
   (\<exists>st'. customer_delete 200 sample_store empty_post 1 =
            (st', Inr (JsonResponse (PDict [(''success'', PBool True),
                        (''message'', PStr ''Cliente desactivado correctamente'')]))) \<and>
          get_customer st' 1 = Some (sample_customer\<lparr>is_active := False, updated_at := 200\<rparr>) \<and>
          map customer_id (rows st') = [1])"
proof -
  have m: "req_method empty_post = ''POST''"
    by (simp add: empty_post_def post_request_def)
  have g: "get_customer sample_store 1 = Some sample_customer"
    by (simp add: get_customer_def sample_store_def sample_customer_def)
  have k: "map customer_id (rows sample_store) = [1]"
    by (simp add: sample_store_def sample_customer_def)
  from soft_delete [OF m g, of 200] m g k show ?thesis
    by auto
qed

text \<open>
  C10: after an edit POST that succeeds, name, email, phone, address, tax_id and notes
  of the stored customer are the trimmed values of the form fields, the empty string for
  a field the form leaves out, and is_active holds exactly when the form field
  is_active is the string "on"; so a form without that field deactivates the customer.
\<close>

theorem edit_replaces_fields:
  fixes request :: request
  defines "f \<equiv> (\<lambda>k. case POST request k of None \<Rightarrow> [] | Some v \<Rightarrow> strip v)"
  assumes "req_method request = ''POST''" and "get_customer st cid = Some c"
    and "f ''name'' \<noteq> []"
  shows "\<exists>st'. customer_edit now st request cid =
            (st', Inr (JsonResponse (PDict [(''success'', PBool True),
                        (''message'', PStr ''Cliente actualizado correctamente'')]))) \<and>
          get_customer st' cid =
            Some (c\<lparr>name := f ''name'', email := f ''email'', phone := f ''phone'',
                    address := f ''address'', tax_id := f ''tax_id'', notes_text := f ''notes'',
                    is_active := (POST request ''is_active'' = Some ''on''),
                    updated_at := now\<rparr>)"
proof -
  have f: "strip (qget (POST request) k []) = f k" for k
    by (simp add: f_def qget_def strip_Nil split: option.splits)
  let ?d = "c\<lparr>name := f ''name'', email := f ''email'', phone := f ''phone'',
                    address := f ''address'', tax_id := f ''tax_id'', notes_text := f ''notes'',
                    is_active := (POST request ''is_active'' = Some ''on'')\<rparr>"
  have cid: "customer_id c = cid" using assms(3) by (rule get_customer_id)
  then have ex: "get_customer st (customer_id ?d) = Some c" using assms(3) by simp
  have r: "customer_edit now st request cid =
      (fst (save now st ?d), Inr (JsonResponse (PDict [(''success'', PBool True),
                        (''message'', PStr ''Cliente actualizado correctamente'')])))"
    using assms(2-4)
    by (simp add: customer_edit_def require_http_methods_def except_Exception_def
        get_object_or_404_Some gettext_def Let_def f split: prod.splits)
  have g: "get_customer (fst (save now st ?d)) cid = Some (?d\<lparr>updated_at := now\<rparr>)"
    using get_customer_save [of now st ?d] snd_save_existing [OF ex, of now] cid by simp
  show ?thesis using r g by simp
qed

theorem edit_replaces_fields_witness:
  "req_method edit_post = ''POST'' \<and>
   get_customer sample_store 1 = Some sample_customer \<and>
   (\<exists>st'. customer_edit 200 sample_store edit_post 1 =
            (st', Inr (JsonResponse (PDict [(''success'', PBool True),
                        (''message'', PStr ''Cliente actualizado correctamente'')]))) \<and>
          get_customer st' 1 =
            Some (sample_customer\<lparr>name := ''Updated Name'', email := ''updated@example.com'',
                    phone := [], address := [], tax_id := [], notes_text := [],
                    is_active := False, updated_at := 200\<rparr>))"
proof -
  have m: "req_method edit_post = ''POST''"
    by (simp add: edit_post_def post_request_def)
  have g: "get_customer sample_store 1 = Some sample_customer"
    by (simp add: get_customer_def sample_store_def sample_customer_def)
  have n: "(case POST edit_post ''name'' of None \<Rightarrow> [] | Some v \<Rightarrow> strip v) = ''Updated Name''"
    by (simp add: edit_post_def post_request_def strip_def isspace_def)
  have e: "(case POST edit_post ''email'' of None \<Rightarrow> [] | Some v \<Rightarrow> strip v) = ''updated@example.com''"
    by (simp add: edit_post_def post_request_def strip_def isspace_def)
  have o: "POST edit_post ''phone'' = None" "POST edit_post ''address'' = None"
    "POST edit_post ''tax_id'' = None" "POST edit_post ''notes'' = None"
    "POST edit_post ''is_active'' = None"
    by (simp_all add: edit_post_def post_request_def)
  have nn: "(case POST edit_post ''name'' of None \<Rightarrow> [] | Some v \<Rightarrow> strip v) \<noteq> []"
    unfolding n by simp
  from edit_replaces_fields [OF m g nn, of 200] m g show ?thesis
    by (simp add: n e o)
qed

text \<open>
  C5, as the code has it: the listing API answers with the rows of the 100 newest
  customers that pass the filter. So a customer whose row is returned passes the status
  filter (active by default, inactive, or none for any other value such as "all") and,
  when the trimmed search text is not empty, has it in its name, phone, email or tax
  identifier without regard to case; and every customer that passes is returned when at
  most 100 customers pass.
\<close>

theorem listing_filter:
  assumes "req_method request = ''GET''"
  shows "\<exists>data. customer_list_ajax st request =
            (st, Inr (JsonResponse (PDict [(''success'', PBool True), (''customers'', PList data)]))) \<and>
          map Inr data =
            map customer_data
              (take 100 (order_by_created_at_desc (filter (passes_filters request) (rows st)))) \<and>
          (\<forall>c \<in> set (rows st). customer_data c \<in> Inr ` set data \<longrightarrow> passes_filters request c) \<and>
          (length (filter (passes_filters request) (rows st)) \<le> 100 \<longrightarrow>
             (\<forall>c \<in> set (rows st). passes_filters request c \<longrightarrow> customer_data c \<in> Inr ` set data))"
proof -
  let ?qs = "order_by_created_at_desc (filter (passes_filters request) (rows st))"
  obtain data where
    r: "customer_list_ajax st request =
          (st, Inr (JsonResponse (PDict [(''success'', PBool True), (''customers'', PList data)])))"
    and m: "map Inr data = map customer_data (take 100 ?qs)"
    using customer_list_ajax_GET [OF assms, of st] unfolding list_queryset_filter by blast
  have "set (map Inr data) = set (map customer_data (take 100 ?qs))"
    by (simp only: m)
  then have img: "Inr ` set data = customer_data ` set (take 100 ?qs)"
    by (simp only: set_map)
  have qs: "set ?qs = {c \<in> set (rows st). passes_filters request c}"
    by (simp add: order_by_created_at_desc_def)
  have only: "passes_filters request c" if "customer_data c \<in> Inr ` set data" for c
  proof -
    from that have "customer_data c \<in> customer_data ` set (take 100 ?qs)"
      by (simp only: img)
    then obtain c' where c': "c' \<in> set (take 100 ?qs)" "customer_data c = customer_data c'"
      by (rule imageE)
    from c'(1) have "c' \<in> set ?qs" by (rule in_set_takeD)
    then have "passes_filters request c'" by (simp only: qs mem_Collect_eq)
    with c'(2) show ?thesis by (simp only: customer_data_passes [of c c'])
  qed
  have all: "customer_data c \<in> Inr ` set data"
    if le: "length (filter (passes_filters request) (rows st)) \<le> 100"
      and c: "c \<in> set (rows st)" "passes_filters request c" for c
  proof -
    have "length ?qs \<le> 100" using le by (simp add: order_by_created_at_desc_def)
    then have "take 100 ?qs = ?qs" by (rule take_all)
    moreover from c have "c \<in> set ?qs" by (simp only: qs mem_Collect_eq conj_commute)
    ultimately have "c \<in> set (take 100 ?qs)" by (simp only:)
    then have "customer_data c \<in> customer_data ` set (take 100 ?qs)" by (rule imageI)
    then show ?thesis by (simp only: img)
  qed
  show ?thesis
  proof (intro exI [of _ data] conjI ballI impI)
    show "customer_list_ajax st request =
          (st, Inr (JsonResponse (PDict [(''success'', PBool True), (''customers'', PList data)])))"
      by (fact r)
    show "map Inr data = map customer_data (take 100 ?qs)" by (fact m)
  next
    fix c assume "customer_data c \<in> Inr ` set data"
    then show "passes_filters request c" by (rule only)
  next
    fix c
    assume "length (filter (passes_filters request) (rows st)) \<le> 100"
      "c \<in> set (rows st)" "passes_filters request c"
    then show "customer_data c \<in> Inr ` set data" by (rule all)
  qed
qed

theorem listing_filter_witness:
  "req_method search_request = ''GET'' \<and>
   sample_customer \<in> set (rows sample_store) \<and>
   length (filter (passes_filters search_request) (rows sample_store)) \<le> 100 \<and>
   passes_filters search_request sample_customer \<and>
   (\<exists>data. customer_list_ajax sample_store search_request =
            (sample_store,
             Inr (JsonResponse (PDict [(''success'', PBool True), (''customers'', PList data)]))) \<and>
          customer_data sample_customer \<in> Inr ` set data)"
proof -
  have m: "req_method search_request = ''GET''"
    by (simp add: search_request_def get_request_def)
  have i: "sample_customer \<in> set (rows sample_store)"
    by (simp add: sample_store_def)
  have l: "length (filter (passes_filters search_request) (rows sample_store)) \<le> 100"
    by (simp add: sample_store_def)
  have p: "passes_filters search_request sample_customer"
    by code_simp
  from listing_filter [OF m, of sample_store] m i l p show ?thesis
    by blast
qed

text \<open>
  The claim as it is written fails on a table of 101 active customers: the oldest one
  passes the default filter and is not in the answer.
\<close>

theorem listing_omits_passing_customer:
  "numbered_customer 1 \<in> set (rows crowded_store) \<and>
   passes_filters (get_request []) (numbered_customer 1) \<and>
   customer_data (numbered_customer 1) \<notin>
     Inr ` set (customers_of (customer_list_ajax crowded_store (get_request [])))"
  by code_simp

text \<open>
  C6: the listing API returns at most 100 rows, newest first: along the returned rows
  the creation time never increases, and the rows are, in this order, those of the
  first 100 customers of the filtered result ordered by created_at descending, so the
  cut comes after the ordering.
\<close>

theorem listing_order_and_cap:
  assumes "req_method request = ''GET''"
  shows "\<exists>data qs. customer_list_ajax st request =
            (st, Inr (JsonResponse (PDict [(''success'', PBool True), (''customers'', PList data)]))) \<and>
          length data \<le> 100 \<and>
          sorted_wrt
            (\<lambda>d e. \<exists>s t. dict_get d ''created_at'' = Some (PStrftime ''%Y-%m-%d'' s) \<and>
                          dict_get e ''created_at'' = Some (PStrftime ''%Y-%m-%d'' t) \<and> t \<le> s)
            data \<and>
          map (\<lambda>d. dict_get d ''id'') data =
            map (\<lambda>c. Some (PInt (int (customer_id c)))) (take 100 qs) \<and>
          map (\<lambda>d. dict_get d ''created_at'') data =
            map (\<lambda>c. Some (PStrftime ''%Y-%m-%d'' (created_at c))) (take 100 qs) \<and>
          sorted_wrt (\<lambda>a b. created_at b \<le> created_at a) qs \<and>
          mset qs = mset (filter (passes_filters request) (rows st))"
proof -
  let ?qs = "order_by_created_at_desc (filter (passes_filters request) (rows st))"
  let ?cs = "take 100 ?qs"
  let ?R = "\<lambda>d e. \<exists>s t. dict_get d ''created_at'' = Some (PStrftime ''%Y-%m-%d'' s) \<and>
                          dict_get e ''created_at'' = Some (PStrftime ''%Y-%m-%d'' t) \<and> t \<le> s"
  obtain data where
    r: "customer_list_ajax st request =
          (st, Inr (JsonResponse (PDict [(''success'', PBool True), (''customers'', PList data)])))"
    and m: "map Inr data = map customer_data ?cs"
    using customer_list_ajax_GET [OF assms, of st] unfolding list_queryset_filter by blast
  have a: "list_all2 (\<lambda>d c. customer_data c = Inr d) data ?cs"
    using m by (rule map_Inr_customer_data)
  then have l: "length data = length ?cs" by (rule list_all2_lengthD)
  then have len: "length data \<le> 100" by simp
  have at: "customer_data (?cs ! i) = Inr (data ! i)" if "i < length data" for i
    using list_all2_nthD [OF a that] .
  have s: "sorted_wrt (\<lambda>a b. created_at b \<le> created_at a) ?qs"
    by (rule sorted_created_desc)
  then have t: "sorted_wrt (\<lambda>a b. created_at b \<le> created_at a) ?cs"
    by (rule sorted_wrt_take)
  have ids: "map (\<lambda>d. dict_get d ''id'') data = map (\<lambda>c. Some (PInt (int (customer_id c)))) ?cs"
    using l at by (intro nth_equalityI) (simp_all add: customer_data_entries)
  have cr: "map (\<lambda>d. dict_get d ''created_at'') data =
            map (\<lambda>c. Some (PStrftime ''%Y-%m-%d'' (created_at c))) ?cs"
    using l at by (intro nth_equalityI) (simp_all add: customer_data_entries)
  have o: "sorted_wrt ?R data"
  proof (unfold sorted_wrt_iff_nth_less, intro allI impI)
    fix i j assume ij: "i < j" "j < length data"
    then have i: "i < length data" by simp
    from t ij l have "created_at (?cs ! j) \<le> created_at (?cs ! i)"
      by (simp add: sorted_wrt_iff_nth_less)
    moreover have "dict_get (data ! i) ''created_at'' =
        Some (PStrftime ''%Y-%m-%d'' (created_at (?cs ! i)))"
      using at [OF i] by (rule customer_data_entries)
    moreover have "dict_get (data ! j) ''created_at'' =
        Some (PStrftime ''%Y-%m-%d'' (created_at (?cs ! j)))"
      using at [OF ij(2)] by (rule customer_data_entries)
    ultimately show "?R (data ! i) (data ! j)" by blast
  qed
  have ms: "mset ?qs = mset (filter (passes_filters request) (rows st))"
    by (simp add: order_by_created_at_desc_def)
  show ?thesis
    by (intro exI [of _ data] exI [of _ ?qs] conjI r len o ids cr s ms)
qed

theorem listing_order_and_cap_witness:
  "req_method (get_request []) = ''GET'' \<and>
   (\<exists>data. customer_list_ajax ordering_store (get_request []) =
            (ordering_store,
             Inr (JsonResponse (PDict [(''success'', PBool True), (''customers'', PList data)]))) \<and>
          length data \<le> 100 \<and>
          sorted_wrt
            (\<lambda>d e. \<exists>s t. dict_get d ''created_at'' = Some (PStrftime ''%Y-%m-%d'' s) \<and>
                          dict_get e ''created_at'' = Some (PStrftime ''%Y-%m-%d'' t) \<and> t \<le> s)
            data \<and>
          map (\<lambda>d. dict_get d ''id'') data = [Some (PInt 3), Some (PInt 2), Some (PInt 1)] \<and>
          map (\<lambda>d. dict_get d ''created_at'') data =
            [Some (PStrftime ''%Y-%m-%d'' 30), Some (PStrftime ''%Y-%m-%d'' 20),
             Some (PStrftime ''%Y-%m-%d'' 10)])"
proof -
  have m: "req_method (get_request []) = ''GET''"
    by (simp add: get_request_def)
  from listing_order_and_cap [OF m, of ordering_store] obtain data where
    r: "customer_list_ajax ordering_store (get_request []) =
          (ordering_store,
           Inr (JsonResponse (PDict [(''success'', PBool True), (''customers'', PList data)])))"
    and l: "length data \<le> 100"
    and o: "sorted_wrt
            (\<lambda>d e. \<exists>s t. dict_get d ''created_at'' = Some (PStrftime ''%Y-%m-%d'' s) \<and>
                          dict_get e ''created_at'' = Some (PStrftime ''%Y-%m-%d'' t) \<and> t \<le> s)
            data"
    by (elim exE conjE) (rule that, assumption+)
  have d: "customers_of (customer_list_ajax ordering_store (get_request [])) = data"
    by (simp add: r customers_of_def)
  have "map (\<lambda>d. dict_get d ''id'')
          (customers_of (customer_list_ajax ordering_store (get_request []))) =
        [Some (PInt 3), Some (PInt 2), Some (PInt 1)]"
    by code_simp
  then have i: "map (\<lambda>d. dict_get d ''id'') data = [Some (PInt 3), Some (PInt 2), Some (PInt 1)]"
    by (simp only: d)
  have "map (\<lambda>d. dict_get d ''created_at'')
          (customers_of (customer_list_ajax ordering_store (get_request []))) =
        [Some (PStrftime ''%Y-%m-%d'' 30), Some (PStrftime ''%Y-%m-%d'' 20),
         Some (PStrftime ''%Y-%m-%d'' 10)]"
    by code_simp
  then have c: "map (\<lambda>d. dict_get d ''created_at'') data =
        [Some (PStrftime ''%Y-%m-%d'' 30), Some (PStrftime ''%Y-%m-%d'' 20),
         Some (PStrftime ''%Y-%m-%d'' 10)]"
    by (simp only: d)
  show ?thesis
    by (intro conjI exI [of _ data]) (fact m r l o i c)+
qed

text \<open>
  C8: the export writes the header row Name, Email, Phone, Tax ID, Total Spent, Visit
  Count, Created At first, then one row for each customer with is_active true and for
  no other, the name in its first cell, in ascending order of name.
\<close>

theorem export_active_sorted:
  assumes "req_method request = ''GET''"
  shows "\<exists>disposition cs. customers_export now st request =
            (st, Inr (HttpResponse ''text/csv'' disposition
               ([PStr ''Name'', PStr ''Email'', PStr ''Phone'', PStr ''Tax ID'',
                 PStr ''Total Spent'', PStr ''Visit Count'', PStr ''Created At'']
                # map (\<lambda>c. [PStr (name c), PStr (email c), PStr (phone c), PStr (tax_id c),
                              PDecimal (total_spent c), PInt (visit_count c),
                              PStrftime ''%Y-%m-%d'' (created_at c)]) cs))) \<and>
          mset cs = mset (filter (\<lambda>c. is_active c) (rows st)) \<and>
          sorted (map name cs)"
proof -
  let ?cs = "export_queryset st"
  have a: "mset ?cs = mset (filter (\<lambda>c. is_active c) (rows st))"
    by (simp add: export_queryset_def)
  have b: "sorted (map name ?cs)"
    unfolding export_queryset_def by (rule sorted_sort_key)
  have c: "\<exists>disposition. customers_export now st request =
            (st, Inr (HttpResponse ''text/csv'' disposition
               ([PStr ''Name'', PStr ''Email'', PStr ''Phone'', PStr ''Tax ID'',
                 PStr ''Total Spent'', PStr ''Visit Count'', PStr ''Created At'']
                # map (\<lambda>c. [PStr (name c), PStr (email c), PStr (phone c), PStr (tax_id c),
                              PDecimal (total_spent c), PInt (visit_count c),
                              PStrftime ''%Y-%m-%d'' (created_at c)]) ?cs)))"
    using assms
    by (simp add: customers_export_def require_http_methods_def export_loop_rows export_header_def)
  from a b c show ?thesis by blast
qed


theorem export_active_sorted_witness:
  "req_method (get_request []) = ''GET'' \<and>
   (\<exists>disposition. customers_export 200 mixed_store (get_request []) =
      (mixed_store, Inr (HttpResponse ''text/csv'' disposition
         [[PStr ''Name'', PStr ''Email'', PStr ''Phone'', PStr ''Tax ID'',
           PStr ''Total Spent'', PStr ''Visit Count'', PStr ''Created At''],
          [PStr ''Ana'', PStr [], PStr [], PStr [], PDecimal 0, PInt 0,
           PStrftime ''%Y-%m-%d'' 30],
          [PStr ''Zoe'', PStr [], PStr [], PStr [], PDecimal 0, PInt 0,
           PStrftime ''%Y-%m-%d'' 10]])))"
proof -
  let ?zoe = "named_customer 1 ''Zoe'' True 10"
  let ?ana = "named_customer 3 ''Ana'' True 30"
  have m: "req_method (get_request []) = ''GET''"
    by (simp add: get_request_def)
  have f: "filter (\<lambda>c. is_active c) (rows mixed_store) = [?zoe, ?ana]"
    by (simp add: mixed_store_def named_customer_def)
  from export_active_sorted [OF m, of 200 mixed_store] obtain disposition cs where
    r: "customers_export 200 mixed_store (get_request []) =
          (mixed_store, Inr (HttpResponse ''text/csv'' disposition
             ([PStr ''Name'', PStr ''Email'', PStr ''Phone'', PStr ''Tax ID'',
               PStr ''Total Spent'', PStr ''Visit Count'', PStr ''Created At'']
              # map (\<lambda>c. [PStr (name c), PStr (email c), PStr (phone c), PStr (tax_id c),
                            PDecimal (total_spent c), PInt (visit_count c),
                            PStrftime ''%Y-%m-%d'' (created_at c)]) cs)))"
    and ms: "mset cs = mset (filter (\<lambda>c. is_active c) (rows mixed_store))"
    and so: "sorted (map name cs)"
    by blast
  from ms have "mset cs = {#?zoe, ?ana#}" by (simp add: f)
  then have "cs = [?zoe, ?ana] \<or> cs = [?ana, ?zoe]" by (rule mset_pair_cases)
  moreover have "\<not> sorted (map name [?zoe, ?ana])"
    by (simp add: named_customer_def)
  ultimately have cs: "cs = [?ana, ?zoe]" using so by auto
  show ?thesis
    using m r unfolding cs by (simp add: named_customer_def)
qed

end
